theory Spec2Isabelle
  imports Complex_Main
begin

section \<open>String operations of the host language\<close>

text \<open>
  The source is JavaScript, whose strings are sequences of 16-bit code units. A string of
  the model is a list of characters, and a character stands for the code unit of its own
  number: the strings of the model are the source's strings whose code units all lie
  below 256. Lengths and positions count code units, as the source's do. A string with a
  code unit from 256 on has no counterpart here. The operations below are the ones
  \<^verbatim>\<open>src/App.svelte\<close> calls on strings.
\<close>

text \<open>\<^verbatim>\<open>s.split(c)\<close> for a one-character separator: never the empty list.\<close>

fun split_on :: "char \<Rightarrow> string \<Rightarrow> string list" where
  "split_on c [] = [[]]"
| "split_on c (x # xs) =
     (if x = c then [] # split_on c xs
      else (case split_on c xs of
              [] \<Rightarrow> [[x]]
            | p # ps \<Rightarrow> (x # p) # ps))"

text \<open>
  The code units below 256 that \<^verbatim>\<open>trim\<close> strips: the white space of the language (tab,
  vertical tab, form feed, space, no-break space) and its line terminators (line feed,
  carriage return).
\<close>

definition is_space :: "char \<Rightarrow> bool" where
  "is_space c =
     (c \<in> set [CHR 0x09, CHR 0x0A, CHR 0x0B, CHR 0x0C, CHR 0x0D, CHR 0x20, CHR 0xA0])"

text \<open>\<^verbatim>\<open>s.trim()\<close>\<close>

definition trim :: "string \<Rightarrow> string" where
  "trim s = rev (dropWhile is_space (rev (dropWhile is_space s)))"

text \<open>
  The capital letters below 256 and their small letters: A to Z, and the accented capitals
  from 0xC0 to 0xDE without the multiplication sign 0xD7. Every other code unit below 256
  is its own lower case.
\<close>

definition capital_letters :: string where
  "capital_letters =
     ''ABCDEFGHIJKLMNOPQRSTUVWXYZ'' @
     [CHR 0xC0, CHR 0xC1, CHR 0xC2, CHR 0xC3, CHR 0xC4, CHR 0xC5, CHR 0xC6, CHR 0xC7,
      CHR 0xC8, CHR 0xC9, CHR 0xCA, CHR 0xCB, CHR 0xCC, CHR 0xCD, CHR 0xCE, CHR 0xCF,
      CHR 0xD0, CHR 0xD1, CHR 0xD2, CHR 0xD3, CHR 0xD4, CHR 0xD5, CHR 0xD6, CHR 0xD8,
      CHR 0xD9, CHR 0xDA, CHR 0xDB, CHR 0xDC, CHR 0xDD, CHR 0xDE]"

definition small_letters :: string where
  "small_letters =
     ''abcdefghijklmnopqrstuvwxyz'' @
     [CHR 0xE0, CHR 0xE1, CHR 0xE2, CHR 0xE3, CHR 0xE4, CHR 0xE5, CHR 0xE6, CHR 0xE7,
      CHR 0xE8, CHR 0xE9, CHR 0xEA, CHR 0xEB, CHR 0xEC, CHR 0xED, CHR 0xEE, CHR 0xEF,
      CHR 0xF0, CHR 0xF1, CHR 0xF2, CHR 0xF3, CHR 0xF4, CHR 0xF5, CHR 0xF6, CHR 0xF8,
      CHR 0xF9, CHR 0xFA, CHR 0xFB, CHR 0xFC, CHR 0xFD, CHR 0xFE]"

definition toLowerCase_char :: "char \<Rightarrow> char" where
  "toLowerCase_char c =
     (case map_of (zip capital_letters small_letters) c of
        None \<Rightarrow> c
      | Some d \<Rightarrow> d)"

text \<open>\<^verbatim>\<open>s.toLowerCase()\<close>\<close>

definition toLowerCase :: "string \<Rightarrow> string" where
  "toLowerCase s = map toLowerCase_char s"

text \<open>\<^verbatim>\<open>s.endsWith(p)\<close>\<close>

definition endsWith :: "string \<Rightarrow> string \<Rightarrow> bool" where
  "endsWith s p = (length p \<le> length s \<and> drop (length s - length p) s = p)"

text \<open>\<^verbatim>\<open>s.startsWith(p)\<close>\<close>

definition startsWith :: "string \<Rightarrow> string \<Rightarrow> bool" where
  "startsWith s p = (take (length p) s = p)"


section \<open>Shortcut matching\<close>

text \<open>The fields of a keyboard event that \<^verbatim>\<open>matchesShortcut\<close> reads.\<close>

record key_event =
  metaKey :: bool
  ctrlKey :: bool
  shiftKey :: bool
  altKey :: bool
  key :: string

definition modifier_names :: "string list" where
  "modifier_names =
     [''Cmd'', ''Command'', ''Ctrl'', ''Control'', ''Shift'', ''Alt'', ''Option'', ''Opt'']"

text \<open>
  \<^verbatim>\<open>matchesShortcut(event, shortcutString)\<close>. The two early returns are the empty
  shortcut string and a missing key token; \<^verbatim>\<open>!key\<close> is also true of the empty token
  (as in \<^verbatim>\<open>"Cmd+"\<close>).
\<close>

definition matchesShortcut :: "key_event \<Rightarrow> string \<Rightarrow> bool" where
  "matchesShortcut event shortcutString =
     (if shortcutString = [] then False
      else
        let parts = map trim (split_on (CHR ''+'') shortcutString);
            hasCmd = (''Cmd'' \<in> set parts \<or> ''Command'' \<in> set parts);
            hasCtrl = (''Ctrl'' \<in> set parts \<or> ''Control'' \<in> set parts);
            hasShift = (''Shift'' \<in> set parts);
            hasAlt = (''Alt'' \<in> set parts \<or> ''Option'' \<in> set parts \<or> ''Opt'' \<in> set parts)
        in (case find (\<lambda>p. p \<notin> set modifier_names) parts of
              None \<Rightarrow> False
            | Some keyToken \<Rightarrow>
                if keyToken = [] then False
                else
                  let modifiersMatch =
                        ((metaKey event = hasCmd \<or> ctrlKey event = hasCmd) \<and>
                         ctrlKey event = hasCtrl \<and>
                         shiftKey event = hasShift \<and>
                         altKey event = hasAlt);
                      keyMatches = (toLowerCase (key event) = toLowerCase keyToken)
                  in modifiersMatch \<and> keyMatches))"


section \<open>Application state\<close>

abbreviation newline :: string where
  "newline \<equiv> [CHR 0x0A]"

text \<open>A settings value; a field that is absent, \<^verbatim>\<open>null\<close> or \<^verbatim>\<open>undefined\<close> has no value.\<close>

datatype js_value = JString string | JNumber int

type_synonym settings = "string \<rightharpoonup> js_value"

text \<open>A dropped \<^verbatim>\<open>File\<close>: an empty \<^verbatim>\<open>path\<close> stands for a missing (falsy) one.\<close>

record file_entry =
  file_name :: string
  file_path :: string
  webkitRelativePath :: string

text \<open>An element of \<^verbatim>\<open>uploadedImages\<close>.\<close>

record image =
  image_id :: real
  filename :: string
  markdown :: string
  preview :: string
  image_file :: "file_entry option"

text \<open>
  The component's variables. \<open>revoked\<close> is not a variable of the source: it logs the
  calls of \<^verbatim>\<open>URL.revokeObjectURL\<close>, in order.
\<close>

record app_state =
  content :: string
  isDragging :: bool
  isLoading :: bool
  statusMessage :: string
  statusType :: string
  uploadedImages :: "image list"
  isTauri :: bool
  appSettings :: settings
  dragCounter :: int
  revoked :: "string list"

definition default_appSettings :: settings where
  "default_appSettings = map_of
     [(''background_color'', JString ''#1e1e2e''),
      (''font_family'', JString ''-apple-system, BlinkMacSystemFont, SF Pro Display''),
      (''font_size'', JNumber 15),
      (''border_radius'', JNumber 12),
      (''window_transparency'', JNumber 55),
      (''window_blur'', JNumber 80),
      (''window_saturation'', JNumber 200),
      (''window_brightness'', JNumber 0),
      (''text_color'', JString ''#ffffff''),
      (''save_to_daily_shortcut'', JString ''Cmd+Enter''),
      (''save_as_note_shortcut'', JString ''Cmd+Shift+Enter'')]"

text \<open>The state a freshly constructed component starts in (the \<^verbatim>\<open>let\<close> declarations).\<close>

definition init_state :: app_state where
  "init_state =
     \<lparr>content = [], isDragging = False, isLoading = False, statusMessage = [],
      statusType = [], uploadedImages = [], isTauri = False,
      appSettings = default_appSettings, dragCounter = 0, revoked = []\<rparr>"

text \<open>
  \<^verbatim>\<open>showStatus(message, type)\<close>: only errors are shown. The timer that empties the
  message two seconds later is \<open>status_timeout\<close>.
\<close>

definition showStatus :: "app_state \<Rightarrow> string \<Rightarrow> string \<Rightarrow> app_state" where
  "showStatus st message type =
     (if type \<noteq> ''error'' then st
      else st\<lparr>statusMessage := message, statusType := type\<rparr>)"

definition status_timeout :: "app_state \<Rightarrow> app_state" where
  "status_timeout st = st\<lparr>statusMessage := []\<rparr>"

text \<open>The \<^verbatim>\<open>forEach\<close> that releases the locally allocated (\<^verbatim>\<open>blob:\<close>) previews.\<close>

definition revoke_previews :: "app_state \<Rightarrow> app_state" where
  "revoke_previews st =
     st\<lparr>revoked := revoked st @
        map preview
          (filter (\<lambda>img. preview img \<noteq> [] \<and> startsWith (preview img) ''blob:'')
             (uploadedImages st))\<rparr>"

text \<open>The listener of \<^verbatim>\<open>show_capture\<close>: the reset.\<close>

definition show_capture :: "app_state \<Rightarrow> app_state" where
  "show_capture st =
     (revoke_previews st)
       \<lparr>content := [], uploadedImages := [], statusMessage := [], isDragging := False,
        dragCounter := 0, isLoading := False\<rparr>"

text \<open>
  What the markup shows of the state, settings apart: the text area's value, the gallery,
  the drop overlay, the status toast (rendered only while the message is not empty, as an
  error when the type says so) and the loading indicator.
\<close>

definition status_toast :: "app_state \<Rightarrow> (string \<times> bool) option" where
  "status_toast st =
     (if statusMessage st = [] then None
      else Some (statusMessage st, statusType st = ''error''))"

definition rendered ::
  "app_state \<Rightarrow> string \<times> image list \<times> bool \<times> (string \<times> bool) option \<times> bool" where
  "rendered st = (content st, uploadedImages st, isDragging st, status_toast st, isLoading st)"

text \<open>The payload of an event: a string, or anything else.\<close>

datatype event_payload = PayloadString string | PayloadOther

text \<open>The listener of \<^verbatim>\<open>insert_capture_text\<close>.\<close>

definition insert_capture_text :: "app_state \<Rightarrow> event_payload \<Rightarrow> app_state" where
  "insert_capture_text st payload =
     (let text = (case payload of PayloadString s \<Rightarrow> s | PayloadOther \<Rightarrow> [])
      in if trim text = [] then st else st\<lparr>content := text\<rparr>)"

text \<open>The fields the listener of \<^verbatim>\<open>settings_changed\<close> names.\<close>

definition merged_fields :: "string list" where
  "merged_fields =
     [''background_color'', ''font_family'', ''font_size'', ''border_radius'',
      ''window_transparency'', ''window_blur'', ''window_saturation'', ''window_brightness'',
      ''text_color'', ''save_to_daily_shortcut'', ''save_as_note_shortcut'']"

text \<open>
  The object the listener builds: the spread of the local settings, then each named field
  as \<^verbatim>\<open>newSettings.f ?? appSettings.f\<close>.
\<close>

definition merge_settings :: "settings \<Rightarrow> settings \<Rightarrow> settings" where
  "merge_settings local newSettings =
     (\<lambda>f. if f \<in> set merged_fields
          then (case newSettings f of None \<Rightarrow> local f | Some v \<Rightarrow> Some v)
          else local f)"

text \<open>
  The listener of \<^verbatim>\<open>settings_changed\<close>. A payload that is no object (\<open>None\<close>) makes the
  first field access throw, before the assignment.
\<close>

definition settings_changed :: "app_state \<Rightarrow> settings option \<Rightarrow> app_state" where
  "settings_changed st payload =
     (case payload of
        None \<Rightarrow> st
      | Some newSettings \<Rightarrow> st\<lparr>appSettings := merge_settings (appSettings st) newSettings\<rparr>)"


section \<open>Drag and drop events\<close>

text \<open>An element of \<^verbatim>\<open>dataTransfer.items\<close>: its kind and what \<^verbatim>\<open>getAsFile()\<close> returns.\<close>

record transfer_item =
  item_kind :: string
  getAsFile :: "file_entry option"

record data_transfer =
  types :: "string list"
  items :: "transfer_item list"
  files :: "file_entry list"

text \<open>\<^verbatim>\<open>getBoundingClientRect()\<close>\<close>

record rect =
  rect_left :: int
  rect_right :: int
  rect_top :: int
  rect_bottom :: int

text \<open>
  What the handlers read of the text area: its rectangle, \<^verbatim>\<open>selectionStart\<close>
  (\<open>None\<close> for \<^verbatim>\<open>null\<close> or \<^verbatim>\<open>undefined\<close>), the result of \<^verbatim>\<open>parseInt\<close> on the computed
  line height (\<open>None\<close> for \<^verbatim>\<open>NaN\<close>) and \<^verbatim>\<open>scrollTop\<close>. Coordinates are whole pixels.
\<close>

record textarea_view =
  textarea_rect :: rect
  selectionStart :: "nat option"
  lineHeight_parsed :: "int option"
  scrollTop :: int

text \<open>
  What the handlers read of a browser drag event. \<open>currentTarget_rect\<close> is the rectangle of
  \<^verbatim>\<open>e.currentTarget\<close>; \<open>target_is_root\<close> is \<^verbatim>\<open>e.target === document.documentElement\<close>;
  \<open>target_in_container\<close> says that \<^verbatim>\<open>e.target.closest(".capture-container")\<close> finds an
  element; \<open>target_is_textarea\<close> is
  \<^verbatim>\<open>e.target === textareaRef || e.target.closest("textarea") === textareaRef\<close>.
\<close>

record dom_event =
  dataTransfer :: "data_transfer option"
  clientX :: int
  clientY :: int
  currentTarget_rect :: rect
  target_is_root :: bool
  target_in_container :: bool
  target_is_textarea :: bool

definition isFileDrag :: "dom_event \<Rightarrow> bool" where
  "isFileDrag e =
     (case dataTransfer e of
        None \<Rightarrow> False
      | Some dt \<Rightarrow> if ''Files'' \<in> set (types dt) then True else items dt \<noteq> [])"

definition handleDragEnter :: "app_state \<Rightarrow> dom_event \<Rightarrow> app_state" where
  "handleDragEnter st e =
     (if isFileDrag e then
        let st1 = st\<lparr>dragCounter := dragCounter st + 1\<rparr>
        in if dragCounter st1 = 1 then st1\<lparr>isDragging := True\<rparr> else st1
      else st)"

definition handleDragLeave :: "app_state \<Rightarrow> dom_event \<Rightarrow> app_state" where
  "handleDragLeave st e =
     (let r = currentTarget_rect e;
          x = clientX e;
          y = clientY e;
          isLeaving = (x < rect_left r \<or> x > rect_right r \<or> y < rect_top r \<or> y > rect_bottom r)
      in if isLeaving then
           let st1 = st\<lparr>dragCounter := dragCounter st - 1\<rparr>
           in if dragCounter st1 \<le> 0 then st1\<lparr>dragCounter := 0, isDragging := False\<rparr> else st1
         else st)"

definition handleDragOver :: "app_state \<Rightarrow> dom_event \<Rightarrow> app_state" where
  "handleDragOver st e =
     (if isFileDrag e then (if \<not> isDragging st then st\<lparr>isDragging := True\<rparr> else st)
      else st)"

text \<open>The listeners registered on the document, in the capture phase.\<close>

definition globalDragEnter :: "app_state \<Rightarrow> dom_event \<Rightarrow> app_state" where
  "globalDragEnter st e =
     (if \<not> isFileDrag e then st
      else st\<lparr>dragCounter := max (dragCounter st) 1, isDragging := True\<rparr>)"

definition globalDragOver :: "app_state \<Rightarrow> dom_event \<Rightarrow> app_state" where
  "globalDragOver st e = st"

definition globalDragLeave :: "app_state \<Rightarrow> dom_event \<Rightarrow> app_state" where
  "globalDragLeave st e =
     (if target_is_root e then st\<lparr>dragCounter := 0, isDragging := False\<rparr> else st)"


section \<open>Image ingestion\<close>

definition supported_extensions :: "string list" where
  "supported_extensions = [''png'', ''jpg'', ''jpeg'', ''webp'', ''gif'']"

text \<open>\<^verbatim>\<open>name.split(".").pop()?.toLowerCase()\<close>: the text after the last dot, the whole name
  when it has no dot.\<close>

definition extension :: "string \<Rightarrow> string" where
  "extension n = toLowerCase (last (split_on (CHR ''.'') n))"

definition supported :: "string \<Rightarrow> bool" where
  "supported n = (extension n \<in> set supported_extensions)"

text \<open>What a persistence command resolves to: a string, an object with optional fields, or
  \<^verbatim>\<open>null\<close>.\<close>

datatype image_result =
    ResultString string
  | ResultObject "string option" "string option" "string option"
  | ResultNull

record normalized_result =
  res_markdown :: string
  res_saved_path :: "string option"
  res_filename :: "string option"

definition normalizeImageResult :: "image_result \<Rightarrow> normalized_result" where
  "normalizeImageResult result =
     (case result of
        ResultString s \<Rightarrow> \<lparr>res_markdown = s, res_saved_path = None, res_filename = None\<rparr>
      | ResultObject m sp fn \<Rightarrow>
          \<lparr>res_markdown = (case m of None \<Rightarrow> [] | Some s \<Rightarrow> s),
           res_saved_path = sp, res_filename = fn\<rparr>
      | ResultNull \<Rightarrow> \<lparr>res_markdown = [], res_saved_path = None, res_filename = None\<rparr>)"

text \<open>
  The collaborators outside the component. A command that rejects gives \<open>Inl\<close> with what
  \<^verbatim>\<open>toString()\<close> makes of the error; \<open>arrayBuffer_error\<close> and \<open>decodeURIComponent_error\<close>
  are the same for a rejected \<^verbatim>\<open>arrayBuffer()\<close> and a throwing \<^verbatim>\<open>decodeURIComponent\<close>.
  \<open>fresh_number i\<close> is \<^verbatim>\<open>Date.now() + Math.random()\<close> as entry \<open>i\<close> evaluates it.
  \<open>settled_at i\<close> is the time at which the callback of entry \<open>i\<close> ends, for an entry that
  awaits an operation.
\<close>

record host =
  save_image :: "string \<Rightarrow> string + image_result"
  save_image_from_bytes :: "string \<Rightarrow> string \<Rightarrow> string + image_result"
  arrayBuffer :: "file_entry \<Rightarrow> bool"
  arrayBuffer_error :: "file_entry \<Rightarrow> string"
  readAsDataURL :: "file_entry \<Rightarrow> string + string option"
  createObjectURL :: "file_entry \<Rightarrow> string"
  convertFileSrc :: "string \<Rightarrow> string"
  decodeURIComponent :: "string \<Rightarrow> string option"
  decodeURIComponent_error :: "string \<Rightarrow> string"
  fresh_number :: "nat \<Rightarrow> real"
  settled_at :: "nat \<Rightarrow> nat"

text \<open>Why an entry of a batch gives no record (the source returns \<^verbatim>\<open>null\<close> for each).\<close>

datatype entry_error =
    UnsupportedType
  | NoRuntime
  | ReadFailure
  | EncodingFailure
  | PersistenceFailure

text \<open>\<^verbatim>\<open>a || b\<close> on strings.\<close>

definition or_else :: "string \<Rightarrow> string \<Rightarrow> string" where
  "or_else a b = (if a \<noteq> [] then a else b)"

text \<open>The path of a dropped file: its own, or the one of the item at the same index.\<close>

definition resolve_filePath :: "transfer_item list \<Rightarrow> nat \<Rightarrow> file_entry \<Rightarrow> string" where
  "resolve_filePath its index f =
     (let filePath = or_else (file_path f) (webkitRelativePath f)
      in if filePath = [] \<and> index < length its then
           let item = its ! index
           in if item_kind item = ''file'' then
                (case getAsFile item of
                   None \<Rightarrow> filePath
                 | Some fileFromItem \<Rightarrow>
                     if file_path fileFromItem \<noteq> [] \<or> webkitRelativePath fileFromItem \<noteq> []
                     then or_else (file_path fileFromItem) (webkitRelativePath fileFromItem)
                     else filePath)
              else filePath
         else filePath)"

text \<open>The string handed to \<^verbatim>\<open>save_image_from_bytes\<close>:
  \<^verbatim>\<open>typeof result === "string" ? result.split(",")[1] || result : ""\<close>.\<close>

definition base64_of :: "string option \<Rightarrow> string" where
  "base64_of result =
     (case result of
        None \<Rightarrow> []
      | Some r \<Rightarrow>
          (case split_on (CHR '','') r of
             _ # second # _ \<Rightarrow> or_else second r
           | _ \<Rightarrow> r))"

text \<open>
  The function \<^verbatim>\<open>handleDrop\<close> maps over the dropped files. Every exception is caught
  inside it, so an entry ends in a record or in \<^verbatim>\<open>null\<close>.
\<close>

definition process_file ::
  "host \<Rightarrow> bool \<Rightarrow> transfer_item list \<Rightarrow> nat \<Rightarrow> file_entry \<Rightarrow> entry_error + image" where
  "process_file h tauri its index f =
     (if \<not> supported (file_name f) then Inl UnsupportedType
      else
        let filePath = resolve_filePath its index f;
            made = (\<lambda>markdownLink.
              \<lparr>image_id = fresh_number h index + real index, filename = file_name f,
               markdown = markdownLink, preview = createObjectURL h f, image_file = Some f\<rparr>)
        in if filePath \<noteq> [] then
             (case save_image h filePath of
                Inl err \<Rightarrow> Inl PersistenceFailure
              | Inr result \<Rightarrow> Inr (made (res_markdown (normalizeImageResult result))))
           else if \<not> tauri then Inl NoRuntime
           else if \<not> arrayBuffer h f then Inl ReadFailure
           else
             (case readAsDataURL h f of
                Inl err \<Rightarrow> Inl EncodingFailure
              | Inr read \<Rightarrow>
                  (case save_image_from_bytes h (base64_of read) (file_name f) of
                     Inl err \<Rightarrow> Inl PersistenceFailure
                   | Inr result \<Rightarrow> Inr (made (res_markdown (normalizeImageResult result))))))"

text \<open>\<^verbatim>\<open>files.map(async (file, index) => ...)\<close> awaited by \<^verbatim>\<open>Promise.all\<close>.\<close>

definition drop_results ::
  "host \<Rightarrow> bool \<Rightarrow> transfer_item list \<Rightarrow> file_entry list \<Rightarrow> (entry_error + image) list" where
  "drop_results h tauri its fs = map (\<lambda>(index, f). process_file h tauri its index f) (enumerate 0 fs)"

text \<open>\<^verbatim>\<open>results.filter((img) => img !== null)\<close>\<close>

definition valid_images :: "(entry_error + image) list \<Rightarrow> image list" where
  "valid_images results = List.map_filter (\<lambda>r. case r of Inl err \<Rightarrow> None | Inr img \<Rightarrow> Some img) results"

definition normalizeFilePath :: "host \<Rightarrow> string \<Rightarrow> string option" where
  "normalizeFilePath h p =
     (if p = [] then Some []
      else if startsWith p ''file://'' then decodeURIComponent h (drop 7 p)
      else Some p)"

fun digits_of :: "nat \<Rightarrow> string" where
  "digits_of n =
     (if n < 10 then [''0123456789'' ! n]
      else digits_of (n div 10) @ [''0123456789'' ! (n mod 10)])"

text \<open>The function \<^verbatim>\<open>handleTauriFileDrop\<close> maps over the supported paths.\<close>

definition process_path :: "host \<Rightarrow> nat \<Rightarrow> string \<Rightarrow> entry_error + image" where
  "process_path h index filePath =
     (case save_image h filePath of
        Inl err \<Rightarrow> Inl PersistenceFailure
      | Inr result \<Rightarrow>
          let normalizedResult = normalizeImageResult result;
              saved = (case res_saved_path normalizedResult of None \<Rightarrow> [] | Some s \<Rightarrow> s)
          in (case normalizeFilePath h (or_else saved filePath) of
                None \<Rightarrow> Inl PersistenceFailure
              | Some normalizedPath \<Rightarrow>
                  Inr \<lparr>image_id = fresh_number h index + real index,
                       filename =
                         or_else (case res_filename normalizedResult of None \<Rightarrow> [] | Some s \<Rightarrow> s)
                           (or_else (last (split_on (CHR ''/'') normalizedPath))
                              (''image'' @ digits_of index)),
                       markdown = res_markdown normalizedResult,
                       preview = convertFileSrc h normalizedPath,
                       image_file = None\<rparr>))"

text \<open>The outcome of every path of a native drop: the unsupported ones are filtered out
  first, the others are mapped with their index among the supported ones.\<close>

definition tauri_results :: "host \<Rightarrow> string list \<Rightarrow> (entry_error + image) list" where
  "tauri_results h paths =
     (let imagePaths = filter supported paths
      in map (\<lambda>(index, p). process_path h index p) (enumerate 0 imagePaths))"


text \<open>
  The error message a failed entry shows (\<^verbatim>\<open>showStatus(..., "error")\<close>), and when: while
  \<^verbatim>\<open>files.map\<close> runs, before the entry's first \<^verbatim>\<open>await\<close>, or when the operation it
  awaits has settled.
\<close>

datatype entry_toast = AtDispatch string | AtSettling string

definition file_status ::
  "host \<Rightarrow> bool \<Rightarrow> transfer_item list \<Rightarrow> nat \<Rightarrow> file_entry \<Rightarrow> entry_toast option" where
  "file_status h tauri its index f =
     (if \<not> supported (file_name f)
      then Some (AtDispatch (''Nicht unterst'' @ [CHR 0xFC] @ ''tzt: '' @ file_name f))
      else
        let filePath = resolve_filePath its index f
        in if filePath \<noteq> [] then
             (case save_image h filePath of
                Inl err \<Rightarrow> Some (AtSettling (''Error: '' @ err))
              | Inr result \<Rightarrow> None)
           else if \<not> tauri then Some (AtDispatch ''Please use in Tauri app'')
           else if \<not> arrayBuffer h f then Some (AtSettling (''Error: '' @ arrayBuffer_error h f))
           else
             (case readAsDataURL h f of
                Inl err \<Rightarrow> Some (AtSettling (''Error: Error: Failed to encode file: '' @ err))
              | Inr read \<Rightarrow>
                  (case save_image_from_bytes h (base64_of read) (file_name f) of
                     Inl err \<Rightarrow> Some (AtSettling (''Error: '' @ err))
                   | Inr result \<Rightarrow> None)))"

text \<open>
  The messages of a browser drop in the order they are shown: those of the dispatch in
  batch order, then those of the settled operations in the order they settle.
\<close>

definition drop_toasts ::
  "host \<Rightarrow> bool \<Rightarrow> transfer_item list \<Rightarrow> file_entry list \<Rightarrow> string list" where
  "drop_toasts h tauri its fs =
     (let at_dispatch = List.map_filter
            (\<lambda>(index, f). case file_status h tauri its index f of
                              Some (AtDispatch m) \<Rightarrow> Some m
                            | _ \<Rightarrow> None)
            (enumerate 0 fs);
          at_settling = List.map_filter
            (\<lambda>(index, f). case file_status h tauri its index f of
                              Some (AtSettling m) \<Rightarrow> Some (index, m)
                            | _ \<Rightarrow> None)
            (enumerate 0 fs)
      in at_dispatch @ map snd (sort_key (\<lambda>(index, m). settled_at h index) at_settling))"

text \<open>The message a failed path of a native drop shows; all of them after an \<^verbatim>\<open>await\<close>.\<close>

definition path_status :: "host \<Rightarrow> nat \<Rightarrow> string \<Rightarrow> string option" where
  "path_status h index filePath =
     (case save_image h filePath of
        Inl err \<Rightarrow> Some (''Error: '' @ err)
      | Inr result \<Rightarrow>
          let normalizedResult = normalizeImageResult result;
              saved = (case res_saved_path normalizedResult of None \<Rightarrow> [] | Some s \<Rightarrow> s)
          in (case normalizeFilePath h (or_else saved filePath) of
                None \<Rightarrow>
                  Some (''Error: '' @ decodeURIComponent_error h (drop 7 (or_else saved filePath)))
              | Some normalizedPath \<Rightarrow> None))"

definition tauri_toasts :: "host \<Rightarrow> string list \<Rightarrow> string list" where
  "tauri_toasts h paths =
     (let imagePaths = filter supported paths;
          at_settling = List.map_filter
            (\<lambda>(index, p). case path_status h index p of
                              Some m \<Rightarrow> Some (index, m)
                            | None \<Rightarrow> None)
            (enumerate 0 imagePaths)
      in map snd (sort_key (\<lambda>(index, m). settled_at h index) at_settling))"

text \<open>The state after the messages have been shown, one after the other.\<close>

definition show_errors :: "app_state \<Rightarrow> string list \<Rightarrow> app_state" where
  "show_errors st messages = foldl (\<lambda>s m. showStatus s m ''error'') st messages"

text \<open>The entries of a batch that were refused for their type, and those that failed later.\<close>

definition unsupported_count :: "(entry_error + image) list \<Rightarrow> nat" where
  "unsupported_count results = length (filter (\<lambda>r. r = Inl UnsupportedType) results)"

definition failure_count :: "(entry_error + image) list \<Rightarrow> nat" where
  "failure_count results = length (filter (\<lambda>r. isl r \<and> r \<noteq> Inl UnsupportedType) results)"


section \<open>Inserting image references into the buffer\<close>

text \<open>\<^verbatim>\<open>parseInt(getComputedStyle(textareaRef).lineHeight) || 20\<close>\<close>

definition lineHeight_of :: "textarea_view \<Rightarrow> int" where
  "lineHeight_of ta =
     (case lineHeight_parsed ta of None \<Rightarrow> 20 | Some v \<Rightarrow> if v = 0 then 20 else v)"

text \<open>The estimate from the pointer's height, used when the text area reports no selection.\<close>

definition estimate_position :: "string \<Rightarrow> textarea_view \<Rightarrow> int \<Rightarrow> nat" where
  "estimate_position c ta dropY =
     (let lineHeight = lineHeight_of ta;
          relativeY = dropY - rect_top (textarea_rect ta) + scrollTop ta;
          estimatedLine = max 0 (relativeY div lineHeight);
          lines = split_on (CHR 0x0A) c;
          pos = sum_list (map (\<lambda>l. length l + 1)
                  (take (min (nat estimatedLine) (length lines)) lines))
      in min pos (length c))"

text \<open>\<open>insertPosition\<close> as \<^verbatim>\<open>handleDrop\<close> computes it once the batch has resolved.\<close>

definition insert_position :: "string \<Rightarrow> textarea_view option \<Rightarrow> dom_event \<Rightarrow> nat" where
  "insert_position c textareaRef e =
     (case textareaRef of
        None \<Rightarrow> length c
      | Some ta \<Rightarrow>
          let r = textarea_rect ta;
              dropX = clientX e;
              dropY = clientY e;
              isOverTextarea =
                (dropX \<ge> rect_left r \<and> dropX \<le> rect_right r \<and>
                 dropY \<ge> rect_top r \<and> dropY \<le> rect_bottom r)
          in if isOverTextarea \<or> target_is_textarea e then
               (case selectionStart ta of
                  Some p \<Rightarrow> p
                | None \<Rightarrow> estimate_position c ta dropY)
             else length c)"

text \<open>The body of the \<^verbatim>\<open>forEach\<close> over the resolved images: the buffer and the running
  position before, and after.\<close>

definition insert_image :: "string \<times> nat \<Rightarrow> image \<Rightarrow> string \<times> nat" where
  "insert_image cp img =
     (let c = fst cp;
          currentPosition = snd cp;
          imageMarkdown = markdown img @ newline
      in if currentPosition \<ge> length c then
           (if c \<noteq> [] \<and> \<not> endsWith c newline
            then ((c @ newline) @ imageMarkdown, length (c @ newline) + length imageMarkdown)
            else (c @ imageMarkdown, currentPosition + length imageMarkdown))
         else
           let before = take currentPosition c;
               after = drop currentPosition c;
               isAtLineStart = (endsWith before newline \<or> before = [])
           in if \<not> isAtLineStart \<and> \<not> endsWith before (newline @ newline)
              then (before @ newline @ imageMarkdown @ after,
                    currentPosition + 1 + length imageMarkdown)
              else (before @ imageMarkdown @ after, currentPosition + length imageMarkdown))"

definition insertImages :: "string \<Rightarrow> nat \<Rightarrow> image list \<Rightarrow> string \<times> nat" where
  "insertImages c insertPosition validImages = foldl insert_image (c, insertPosition) validImages"

text \<open>
  The message of the closing \<^verbatim>\<open>showStatus\<close>. Its check mark is a code unit from 256 on;
  the three characters that stand for it here are its UTF-8 bytes. The message is never
  stored: \<^verbatim>\<open>showStatus\<close> returns at once for the type \<^verbatim>\<open>success\<close>.
\<close>

definition added_message :: "nat \<Rightarrow> string" where
  "added_message n =
     [CHR 0xE2, CHR 0x9C, CHR 0x93] @ '' '' @ digits_of n @ '' image'' @
     (if n > 1 then ''s'' else []) @ '' added''"


text \<open>What a batch adds to the buffer: each reference followed by a line break, in order.\<close>

definition references :: "image list \<Rightarrow> string" where
  "references validImages = concat (map (\<lambda>img. markdown img @ newline) validImages)"


section \<open>The drop handlers\<close>

text \<open>
  \<^verbatim>\<open>handleDrop\<close> and \<^verbatim>\<open>handleTauriFileDrop\<close> are asynchronous: each runs up to its
  \<^verbatim>\<open>await Promise.all\<close>, and resumes when the batch has resolved, on the variables as they
  are by then. The two halves are separate functions; other handlers may run in between.
\<close>

definition handleDrop_begin :: "app_state \<Rightarrow> dom_event \<Rightarrow> app_state" where
  "handleDrop_begin st e =
     (let st1 = st\<lparr>isDragging := False, dragCounter := 0\<rparr>
      in case dataTransfer e of
           None \<Rightarrow> showStatus st1 ''Error: dataTransfer not available'' ''error''
         | Some dt \<Rightarrow>
             if files dt = [] then showStatus st1 ''No files found'' ''error'' else st1)"

definition handleDrop_finish ::
  "app_state \<Rightarrow> textarea_view option \<Rightarrow> dom_event \<Rightarrow> image list \<Rightarrow> app_state" where
  "handleDrop_finish st textareaRef e validImages =
     (if validImages \<noteq> [] then
        let insertPosition = insert_position (content st) textareaRef e;
            inserted = insertImages (content st) insertPosition validImages;
            st1 = st\<lparr>content := fst inserted, uploadedImages := uploadedImages st @ validImages\<rparr>
        in showStatus st1 (added_message (length validImages)) ''success''
      else st)"

text \<open>
  \<^verbatim>\<open>handleDrop\<close> when nothing else runs while the batch resolves: the synchronous part,
  the messages of the failed entries, the resumption.
\<close>

definition handleDrop :: "host \<Rightarrow> textarea_view option \<Rightarrow> app_state \<Rightarrow> dom_event \<Rightarrow> app_state" where
  "handleDrop h textareaRef st e =
     (let st1 = handleDrop_begin st e
      in case dataTransfer e of
           None \<Rightarrow> st1
         | Some dt \<Rightarrow>
             if files dt = [] then st1
             else
               let st2 = show_errors st1 (drop_toasts h (isTauri st1) (items dt) (files dt))
               in handleDrop_finish st2 textareaRef e
                    (valid_images (drop_results h (isTauri st1) (items dt) (files dt))))"

definition handleTauriFileDrop_begin :: "app_state \<Rightarrow> string list \<Rightarrow> app_state" where
  "handleTauriFileDrop_begin st paths =
     (let st1 = st\<lparr>isDragging := False, dragCounter := 0\<rparr>
      in if paths = [] then showStatus st1 ''No files found'' ''error''
         else if filter supported paths = []
         then showStatus st1 ''No supported image files found'' ''error''
         else st1)"

definition handleTauriFileDrop_finish :: "app_state \<Rightarrow> image list \<Rightarrow> app_state" where
  "handleTauriFileDrop_finish st validImages =
     (if validImages \<noteq> [] then
        let st1 = st\<lparr>uploadedImages := uploadedImages st @ validImages\<rparr>;
            st2 = (if content st1 \<noteq> [] \<and> \<not> endsWith (content st1) newline
                   then st1\<lparr>content := content st1 @ newline\<rparr> else st1);
            st3 = foldl (\<lambda>s img. s\<lparr>content := content s @ markdown img @ newline\<rparr>) st2 validImages
        in showStatus st3 (added_message (length validImages)) ''success''
      else st)"

text \<open>
  \<^verbatim>\<open>handleTauriFileDrop\<close> when nothing else runs while the batch resolves: the
  synchronous part, the messages of the failed paths, the resumption.
\<close>

definition handleTauriFileDrop :: "host \<Rightarrow> app_state \<Rightarrow> string list \<Rightarrow> app_state" where
  "handleTauriFileDrop h st paths =
     (let st1 = handleTauriFileDrop_begin st paths
      in if paths = [] \<or> filter supported paths = [] then st1
         else
           let st2 = show_errors st1 (tauri_toasts h paths)
           in handleTauriFileDrop_finish st2 (valid_images (tauri_results h paths)))"

text \<open>The listener registered on the document for \<^verbatim>\<open>drop\<close>, up to the \<^verbatim>\<open>await\<close>.\<close>

definition globalDrop :: "app_state \<Rightarrow> dom_event \<Rightarrow> app_state" where
  "globalDrop st e = (if target_in_container e then handleDrop_begin st e else st)"

text \<open>The payload of the host's drag and drop event: its \<^verbatim>\<open>type\<close>, and for a drop the
  paths when \<^verbatim>\<open>payload.paths\<close> is an array.\<close>

datatype drag_payload =
    PEnter
  | POver
  | PLeave
  | PDrop "string list option"
  | POther

text \<open>\<^verbatim>\<open>handleDragDropEvent\<close>, up to the \<^verbatim>\<open>await\<close> of the drop it hands on.\<close>

definition handleDragDropEvent :: "app_state \<Rightarrow> drag_payload option \<Rightarrow> app_state" where
  "handleDragDropEvent st payload =
     (case payload of
        None \<Rightarrow> st
      | Some PEnter \<Rightarrow> st\<lparr>isDragging := True\<rparr>
      | Some POver \<Rightarrow> st\<lparr>isDragging := True\<rparr>
      | Some PLeave \<Rightarrow> st\<lparr>isDragging := False, dragCounter := 0\<rparr>
      | Some (PDrop ps) \<Rightarrow>
          (let st1 = st\<lparr>isDragging := False, dragCounter := 0\<rparr>
           in case ps of None \<Rightarrow> st1 | Some paths \<Rightarrow> handleTauriFileDrop_begin st1 paths)
      | Some POther \<Rightarrow> st)"


section \<open>The component as a transition system\<close>

text \<open>
  One event per run of a handler: the drag handlers of the container and of its
  descendants, the listeners on the document, the host's events, the failure of an entry
  of a pending batch (with the message it shows), and the resumption of a drop whose
  batch has resolved (with the images it resolved to).
\<close>

datatype ui_event =
    DragEnter dom_event
  | DragLeave dom_event
  | DragOver dom_event
  | Drop dom_event
  | GlobalDragEnter dom_event
  | GlobalDragOver dom_event
  | GlobalDragLeave dom_event
  | GlobalDrop dom_event
  | NativeDragDrop "drag_payload option"
  | EntryFailed string
  | DropResolved "textarea_view option" dom_event "image list"
  | NativeDropResolved "image list"
  | ShowCapture
  | InsertCaptureText event_payload
  | SettingsChanged "settings option"
  | StatusTimeout

fun step :: "app_state \<Rightarrow> ui_event \<Rightarrow> app_state" where
  "step st (DragEnter e) = handleDragEnter st e"
| "step st (DragLeave e) = handleDragLeave st e"
| "step st (DragOver e) = handleDragOver st e"
| "step st (Drop e) = handleDrop_begin st e"
| "step st (GlobalDragEnter e) = globalDragEnter st e"
| "step st (GlobalDragOver e) = globalDragOver st e"
| "step st (GlobalDragLeave e) = globalDragLeave st e"
| "step st (GlobalDrop e) = globalDrop st e"
| "step st (NativeDragDrop payload) = handleDragDropEvent st payload"
| "step st (EntryFailed message) = showStatus st message ''error''"
| "step st (DropResolved textareaRef e validImages) = handleDrop_finish st textareaRef e validImages"
| "step st (NativeDropResolved validImages) = handleTauriFileDrop_finish st validImages"
| "step st ShowCapture = show_capture st"
| "step st (InsertCaptureText payload) = insert_capture_text st payload"
| "step st (SettingsChanged payload) = settings_changed st payload"
| "step st StatusTimeout = status_timeout st"

definition run :: "app_state \<Rightarrow> ui_event list \<Rightarrow> app_state" where
  "run st evs = foldl step st evs"

text \<open>The drops that reach a drop handler: \<^verbatim>\<open>handleDrop\<close> itself, the document's listener
  when the target lies inside the capture container, and the host's drop.\<close>

fun handled_drop :: "ui_event \<Rightarrow> bool" where
  "handled_drop (Drop e) = True"
| "handled_drop (GlobalDrop e) = target_in_container e"
| "handled_drop (NativeDragDrop (Some (PDrop ps))) = True"
| "handled_drop ev = False"


section \<open>Example inputs\<close>

text \<open>Concrete events and collaborators, for the instances below.\<close>

definition example_rect :: rect where
  "example_rect = \<lparr>rect_left = 0, rect_right = 300, rect_top = 0, rect_bottom = 100\<rparr>"

definition example_transfer :: data_transfer where
  "example_transfer =
     \<lparr>types = [''Files''],
      items = [\<lparr>item_kind = ''file'', getAsFile = None\<rparr>],
      files = [\<lparr>file_name = ''a.png'', file_path = ''/tmp/a.png'', webkitRelativePath = []\<rparr>]\<rparr>"

text \<open>A drag over the capture container, and one whose target lies outside it.\<close>

definition drag_inside :: dom_event where
  "drag_inside =
     \<lparr>dataTransfer = Some example_transfer, clientX = 10, clientY = 10,
      currentTarget_rect = example_rect, target_is_root = False,
      target_in_container = True, target_is_textarea = False\<rparr>"

definition drag_outside :: dom_event where
  "drag_outside =
     \<lparr>dataTransfer = Some example_transfer, clientX = 400, clientY = 10,
      currentTarget_rect = example_rect, target_is_root = False,
      target_in_container = False, target_is_textarea = False\<rparr>"

text \<open>Two resolved images, and collaborators that persist \<^verbatim>\<open>/tmp/a.png\<close> only.\<close>

definition image_a :: image where
  "image_a = \<lparr>image_id = 1, filename = ''a.png'', markdown = ''![[a.png]]'',
     preview = ''blob:a'', image_file = None\<rparr>"

definition image_b :: image where
  "image_b = \<lparr>image_id = 2, filename = ''b.png'', markdown = ''![[b.png]]'',
     preview = ''blob:b'', image_file = None\<rparr>"

definition example_host :: host where
  "example_host =
     \<lparr>save_image = (\<lambda>p. if p = ''/tmp/a.png'' then Inr (ResultString ''![[a.png]]'')
                         else Inl ''no such file''),
      save_image_from_bytes = (\<lambda>b n. Inr (ResultObject (Some (''![['' @ n @ '']]'')) None (Some n))),
      arrayBuffer = (\<lambda>f. True),
      arrayBuffer_error = (\<lambda>f. ''NotReadableError''),
      readAsDataURL = (\<lambda>f. Inr (Some ''data:image/png;base64,AAAA'')),
      createObjectURL = (\<lambda>f. ''blob:'' @ file_name f),
      convertFileSrc = (\<lambda>p. ''asset://localhost/'' @ p),
      decodeURIComponent = (\<lambda>p. Some p),
      decodeURIComponent_error = (\<lambda>p. ''URIError: URI malformed''),
      fresh_number = (\<lambda>i. 1000),
      settled_at = (\<lambda>i. i)\<rparr>"

text \<open>A batch of four files: one that persists, one of an unsupported type, one whose
  persistence fails, one without a path.\<close>

definition example_files :: "file_entry list" where
  "example_files =
     [\<lparr>file_name = ''a.png'', file_path = ''/tmp/a.png'', webkitRelativePath = []\<rparr>,
      \<lparr>file_name = ''notes.txt'', file_path = ''/tmp/notes.txt'', webkitRelativePath = []\<rparr>,
      \<lparr>file_name = ''b.JPG'', file_path = ''/tmp/b.JPG'', webkitRelativePath = []\<rparr>,
      \<lparr>file_name = ''c.gif'', file_path = [], webkitRelativePath = []\<rparr>]"


section \<open>Results\<close>

subsection \<open>Shortcut matching\<close>

text \<open>
  Claim C1 says that an event whose meta flag is set matches no shortcut whose modifiers
  leave out Cmd. The source compares the meta flag and the control flag with the Cmd
  requirement by a disjunction, so with Cmd not required and the control key up the
  disjunction holds whatever the meta flag is: the shortcut \<^verbatim>\<open>Shift+Enter\<close> matches
  the key event meta+shift+Enter.
\<close>

theorem matchesShortcut_meta_without_Cmd:
  "matchesShortcut
     \<lparr>metaKey = True, ctrlKey = False, shiftKey = True, altKey = False, key = ''Enter''\<rparr>
     ''Shift+Enter'' = True"
  by (simp add: matchesShortcut_def trim_def is_space_def modifier_names_def
      toLowerCase_def toLowerCase_char_def capital_letters_def small_letters_def)

text \<open>
  The default shortcut \<^verbatim>\<open>Cmd+Enter\<close>: it matches meta+Enter, in any letter case of the
  key; it does not match when shift is held as well, nor control+Enter without meta.
\<close>

lemma matchesShortcut_Cmd_Enter:
  "matchesShortcut
     \<lparr>metaKey = True, ctrlKey = False, shiftKey = False, altKey = False, key = ''Enter''\<rparr>
     ''Cmd+Enter'' = True \<and>
   matchesShortcut
     \<lparr>metaKey = True, ctrlKey = False, shiftKey = False, altKey = False, key = ''ENTER''\<rparr>
     ''Cmd+Enter'' = True \<and>
   matchesShortcut
     \<lparr>metaKey = True, ctrlKey = False, shiftKey = True, altKey = False, key = ''Enter''\<rparr>
     ''Cmd+Enter'' = False \<and>
   matchesShortcut
     \<lparr>metaKey = False, ctrlKey = True, shiftKey = False, altKey = False, key = ''Enter''\<rparr>
     ''Cmd+Enter'' = False"
  by (simp add: matchesShortcut_def trim_def is_space_def modifier_names_def
      toLowerCase_def toLowerCase_char_def capital_letters_def small_letters_def)


text \<open>
  Case folding reaches the accented letters: the shortcut made of Cmd and the capital E
  with acute accent matches the key event of meta and the small one. Parts are trimmed of
  no-break spaces as of spaces.
\<close>

lemma matchesShortcut_accented_key:
  "matchesShortcut
     \<lparr>metaKey = True, ctrlKey = False, shiftKey = False, altKey = False, key = [CHR 0xE9]\<rparr>
     (''Cmd+'' @ [CHR 0xC9]) = True \<and>
   matchesShortcut
     \<lparr>metaKey = True, ctrlKey = False, shiftKey = False, altKey = False, key = ''k''\<rparr>
     (''Cmd'' @ [CHR 0xA0] @ ''+ K'') = True"
  by (simp add: matchesShortcut_def trim_def is_space_def modifier_names_def
      toLowerCase_def toLowerCase_char_def capital_letters_def small_letters_def)


subsection \<open>White space and trimming\<close>

lemma dropWhile_all_iff: "(\<forall>c \<in> set (dropWhile P s). P c) = (\<forall>c \<in> set s. P c)"
proof
  assume a: "\<forall>c \<in> set (dropWhile P s). P c"
  have "dropWhile P s = []"
  proof (rule ccontr)
    assume n: "dropWhile P s \<noteq> []"
    then have "\<not> P (hd (dropWhile P s))" by (rule hd_dropWhile)
    moreover have "hd (dropWhile P s) \<in> set (dropWhile P s)" using n by simp
    ultimately show False using a by blast
  qed
  then show "\<forall>c \<in> set s. P c" by (simp add: dropWhile_eq_Nil_conv)
next
  assume "\<forall>c \<in> set s. P c"
  then show "\<forall>c \<in> set (dropWhile P s). P c" using set_dropWhileD by fastforce
qed

lemma trim_empty_iff: "(trim s = []) = (\<forall>c \<in> set s. is_space c)"
proof -
  have "(trim s = []) = (\<forall>c \<in> set (rev (dropWhile is_space s)). is_space c)"
    by (simp add: trim_def dropWhile_eq_Nil_conv)
  also have "\<dots> = (\<forall>c \<in> set s. is_space c)"
    using dropWhile_all_iff [of is_space s] by simp
  finally show ?thesis .
qed


subsection \<open>The text event\<close>

text \<open>
  Claim C10: \<^verbatim>\<open>insert_capture_text\<close> replaces the whole buffer text. A string payload
  with a character that is not white space becomes the buffer text, and nothing else of
  the state changes (the image records included); a payload of white space only, or one
  that is no string, leaves the state as it is. White space is what \<^verbatim>\<open>trim\<close> strips;
  the no-break space is part of it, so the payload of the last instance below, a no-break
  space and a space, is ignored.
\<close>

theorem insert_capture_text_replaces:
  "((\<exists>c \<in> set t. \<not> is_space c) \<longrightarrow>
      insert_capture_text st (PayloadString t) = st\<lparr>content := t\<rparr>) \<and>
   ((\<forall>c \<in> set t. is_space c) \<longrightarrow> insert_capture_text st (PayloadString t) = st) \<and>
   insert_capture_text st PayloadOther = st"
proof -
  have other: "insert_capture_text st PayloadOther = st"
    by (simp add: insert_capture_text_def trim_def)
  have str: "insert_capture_text st (PayloadString t) =
      (if \<forall>c \<in> set t. is_space c then st else st\<lparr>content := t\<rparr>)"
    by (simp add: insert_capture_text_def trim_empty_iff)
  show ?thesis using other str by auto
qed

theorem insert_capture_text_replaces_witness:
  "insert_capture_text (init_state\<lparr>content := ''old''\<rparr>) (PayloadString ''new text'') =
     init_state\<lparr>content := ''new text''\<rparr> \<and>
   insert_capture_text (init_state\<lparr>content := ''old''\<rparr>) (PayloadString ''  '') =
     init_state\<lparr>content := ''old''\<rparr> \<and>
   insert_capture_text (init_state\<lparr>content := ''old''\<rparr>) (PayloadString [CHR 0xA0, CHR 0x20]) =
     init_state\<lparr>content := ''old''\<rparr>"
  using insert_capture_text_replaces [of "''new text''" "init_state\<lparr>content := ''old''\<rparr>"]
    insert_capture_text_replaces [of "''  ''" "init_state\<lparr>content := ''old''\<rparr>"]
    insert_capture_text_replaces [of "[CHR 0xA0, CHR 0x20]" "init_state\<lparr>content := ''old''\<rparr>"]
  by (simp add: is_space_def)


subsection \<open>The reset\<close>

text \<open>
  Claim C7: the reset is idempotent, and it restores what a freshly constructed component
  shows. A second reset changes nothing; after a reset the text, the record list and the
  status message are empty, nothing is being dragged and the nesting counter is 0; and
  what the markup renders is what it renders of the initial state.
\<close>

theorem show_capture_idempotent_fresh:
  "show_capture (show_capture st) = show_capture st \<and>
   rendered (show_capture st) = rendered init_state \<and>
   dragCounter (show_capture st) = dragCounter init_state \<and>
   content (show_capture st) = [] \<and>
   uploadedImages (show_capture st) = [] \<and>
   statusMessage (show_capture st) = [] \<and>
   isDragging (show_capture st) = False \<and>
   dragCounter (show_capture st) = 0"
  by (simp add: show_capture_def revoke_previews_def rendered_def status_toast_def init_state_def)


subsection \<open>The settings event\<close>

text \<open>
  Claim C8: the listener of \<^verbatim>\<open>settings_changed\<close> merges field by field. A field the
  snapshot does not hold keeps its local value, a field the listener does not name keeps
  its local value, a named field the snapshot holds takes the snapshot's value; so every
  field afterwards is the local value or the snapshot's, never a default. A payload that
  is no object changes nothing.
\<close>

theorem settings_changed_keeps_absent_fields:
  "(newSettings f = None \<longrightarrow>
      appSettings (settings_changed st (Some newSettings)) f = appSettings st f) \<and>
   (f \<notin> set merged_fields \<longrightarrow>
      appSettings (settings_changed st (Some newSettings)) f = appSettings st f) \<and>
   (f \<in> set merged_fields \<longrightarrow> newSettings f = Some v \<longrightarrow>
      appSettings (settings_changed st (Some newSettings)) f = Some v) \<and>
   settings_changed st None = st"
  by (simp add: settings_changed_def merge_settings_def)

theorem settings_changed_keeps_absent_fields_witness:
  "appSettings (settings_changed init_state (Some [''font_size'' \<mapsto> JNumber 20])) ''text_color''
     = Some (JString ''#ffffff'') \<and>
   appSettings (settings_changed init_state (Some [''font_size'' \<mapsto> JNumber 20])) ''font_size''
     = Some (JNumber 20) \<and>
   appSettings (settings_changed init_state (Some [''vault_name'' \<mapsto> JString ''Vault''])) ''vault_name''
     = None"
  using settings_changed_keeps_absent_fields
    [of "[''font_size'' \<mapsto> JNumber 20]" "''text_color''" init_state]
    settings_changed_keeps_absent_fields
    [of "[''font_size'' \<mapsto> JNumber 20]" "''font_size''" init_state "JNumber 20"]
    settings_changed_keeps_absent_fields
    [of "[''vault_name'' \<mapsto> JString ''Vault'']" "''vault_name''" init_state]
  by (simp add: init_state_def default_appSettings_def merged_fields_def)


subsection \<open>The drag state\<close>

lemma showStatus_drag [simp]:
  "dragCounter (showStatus st m t) = dragCounter st"
  "isDragging (showStatus st m t) = isDragging st"
  by (simp_all add: showStatus_def)

lemma show_errors_fields [simp]:
  "content (show_errors st ms) = content st"
  "uploadedImages (show_errors st ms) = uploadedImages st"
  "isTauri (show_errors st ms) = isTauri st"
  "dragCounter (show_errors st ms) = dragCounter st"
  "isDragging (show_errors st ms) = isDragging st"
  unfolding show_errors_def
  by (induction ms arbitrary: st) (simp_all add: showStatus_def)

lemma handleDrop_begin_resets:
  "dragCounter (handleDrop_begin st e) = 0 \<and> isDragging (handleDrop_begin st e) = False"
  by (simp add: handleDrop_begin_def Let_def split: option.splits)

lemma handleTauriFileDrop_begin_resets:
  "dragCounter (handleTauriFileDrop_begin st paths) = 0 \<and>
   isDragging (handleTauriFileDrop_begin st paths) = False"
  by (simp add: handleTauriFileDrop_begin_def Let_def)

lemma handleDragDropEvent_drop_resets:
  "dragCounter (handleDragDropEvent st (Some (PDrop ps))) = 0 \<and>
   isDragging (handleDragDropEvent st (Some (PDrop ps))) = False"
  by (simp add: handleDragDropEvent_def Let_def handleTauriFileDrop_begin_resets split: option.splits)

lemma handleDrop_finish_drag [simp]:
  "dragCounter (handleDrop_finish st ta e imgs) = dragCounter st"
  by (simp add: handleDrop_finish_def Let_def)

lemma foldl_content_drag:
  "dragCounter (foldl (\<lambda>s img. s\<lparr>content := content s @ markdown img @ newline\<rparr>) st imgs) = dragCounter st"
  by (induction imgs arbitrary: st) simp_all

lemma handleTauriFileDrop_finish_drag [simp]:
  "dragCounter (handleTauriFileDrop_finish st imgs) = dragCounter st"
  by (simp add: handleTauriFileDrop_finish_def Let_def foldl_content_drag)

lemma handleDragDropEvent_nonneg:
  "0 \<le> dragCounter st \<Longrightarrow> 0 \<le> dragCounter (handleDragDropEvent st payload)"
  by (cases payload; cases "the payload")
     (simp_all add: handleDragDropEvent_def Let_def handleTauriFileDrop_begin_resets split: option.splits)

lemma step_dragCounter_nonneg:
  assumes that: "0 \<le> dragCounter st"
  shows "0 \<le> dragCounter (step st ev)"
proof (cases ev)
  case (DragEnter e) then show ?thesis using that by (simp add: handleDragEnter_def Let_def)
next
  case (DragLeave e) then show ?thesis using that by (simp add: handleDragLeave_def Let_def)
next
  case (DragOver e) then show ?thesis using that by (simp add: handleDragOver_def)
next
  case (Drop e) then show ?thesis by (simp add: handleDrop_begin_resets)
next
  case (GlobalDragEnter e) then show ?thesis using that by (auto simp add: globalDragEnter_def)
next
  case (GlobalDragOver e) then show ?thesis using that by (simp add: globalDragOver_def)
next
  case (GlobalDragLeave e) then show ?thesis using that by (simp add: globalDragLeave_def)
next
  case (GlobalDrop e) then show ?thesis using that by (simp add: globalDrop_def handleDrop_begin_resets)
next
  case (NativeDragDrop p) then show ?thesis using that by (simp add: handleDragDropEvent_nonneg)
next
  case (EntryFailed m) then show ?thesis using that by simp
next
  case (DropResolved ta e imgs) then show ?thesis using that by simp
next
  case (NativeDropResolved imgs) then show ?thesis using that by simp
next
  case ShowCapture then show ?thesis by (simp add: show_capture_def)
next
  case (InsertCaptureText p) then show ?thesis using that by (simp add: insert_capture_text_def Let_def)
next
  case (SettingsChanged p) then show ?thesis using that by (simp add: settings_changed_def split: option.splits)
next
  case StatusTimeout then show ?thesis using that by (simp add: status_timeout_def)
qed

lemma run_dragCounter_nonneg:
  "0 \<le> dragCounter st \<Longrightarrow> 0 \<le> dragCounter (run st evs)"
  unfolding run_def
  by (induction evs arbitrary: st) (simp_all add: step_dragCounter_nonneg)

lemma handled_drop_resets:
  "handled_drop ev \<Longrightarrow> dragCounter (step st ev) = 0 \<and> isDragging (step st ev) = False"
  by (induction ev rule: handled_drop.induct)
     (simp_all add: handleDrop_begin_resets globalDrop_def handleDragDropEvent_drop_resets)

text \<open>
  Claim C6 says that every drop resets the drag state. The listener on the document
  hands a drop on only when its target lies inside the capture container; a drop
  elsewhere changes nothing, so after a drag has entered, such a drop leaves the overlay
  on and the counter at 1.
\<close>

theorem unhandled_drop_keeps_drag_state:
  "isDragging (run init_state [GlobalDragEnter drag_outside, GlobalDrop drag_outside]) = True \<and>
   dragCounter (run init_state [GlobalDragEnter drag_outside, GlobalDrop drag_outside]) = 1"
  by (simp add: run_def globalDragEnter_def globalDrop_def isFileDrag_def drag_outside_def
      example_transfer_def init_state_def)

text \<open>
  Claim C6, as the code has it: along every sequence of events the nesting counter stays
  at or above 0 (from any state where it is, the initial one among them); every drop
  that reaches a drop handler (\<^verbatim>\<open>handleDrop\<close>, the document's listener for a target
  inside the capture container, the host's drop) sets the counter to 0 and
  \<^verbatim>\<open>isDragging\<close> to false; the document's listener ignores a drop whose target is
  outside the capture container.
\<close>

theorem drag_tracker_counter_and_drop:
  "(0 \<le> dragCounter st \<longrightarrow> 0 \<le> dragCounter (run st evs)) \<and>
   0 \<le> dragCounter (run init_state evs) \<and>
   (handled_drop ev \<longrightarrow> dragCounter (step st ev) = 0 \<and> isDragging (step st ev) = False) \<and>
   (\<not> target_in_container e \<longrightarrow> step st (GlobalDrop e) = st)"
  using run_dragCounter_nonneg [of st evs] run_dragCounter_nonneg [of init_state evs]
    handled_drop_resets [of ev st]
  by (simp add: init_state_def globalDrop_def)

theorem drag_tracker_counter_and_drop_witness:
  "0 \<le> dragCounter (run init_state [DragEnter drag_inside, DragLeave drag_outside, DragLeave drag_outside]) \<and>
   dragCounter (step (run init_state [DragEnter drag_inside, DragEnter drag_inside]) (Drop drag_inside)) = 0 \<and>
   isDragging (step (run init_state [DragEnter drag_inside, DragEnter drag_inside]) (Drop drag_inside)) = False \<and>
   step (run init_state [GlobalDragEnter drag_outside]) (GlobalDrop drag_outside) =
     run init_state [GlobalDragEnter drag_outside]"
  using drag_tracker_counter_and_drop [where st = init_state
      and evs = "[DragEnter drag_inside, DragLeave drag_outside, DragLeave drag_outside]"]
    drag_tracker_counter_and_drop [where ev = "Drop drag_inside"
      and st = "run init_state [DragEnter drag_inside, DragEnter drag_inside]"]
    drag_tracker_counter_and_drop [where e = drag_outside
      and st = "run init_state [GlobalDragEnter drag_outside]"]
  by (simp add: drag_outside_def)


subsection \<open>Inserting a batch\<close>

lemma endsWith_iff: "endsWith s p = (\<exists>xs. s = xs @ p)"
proof
  assume "endsWith s p"
  then have "s = take (length s - length p) s @ p"
    by (metis append_take_drop_id endsWith_def)
  then show "\<exists>xs. s = xs @ p" ..
next
  assume "\<exists>xs. s = xs @ p"
  then show "endsWith s p" by (auto simp add: endsWith_def)
qed

lemma endsWith_append [simp]: "endsWith (xs @ p) p"
  by (auto simp add: endsWith_iff)

lemma endsWith_Nil [simp]: "endsWith [] newline = False"
  by (simp add: endsWith_def)

lemma endsWith_two_newlines: "endsWith b (newline @ newline) \<Longrightarrow> endsWith b newline"
  by (auto simp add: endsWith_iff)

lemma insert_image_at_end:
  assumes "length c \<le> p"
  shows "insert_image (c, p) img =
     (if c \<noteq> [] \<and> \<not> endsWith c newline
      then (c @ newline @ markdown img @ newline, length c + 1 + (length (markdown img) + 1))
      else (c @ markdown img @ newline, p + (length (markdown img) + 1)))"
  using assms by (simp add: insert_image_def Let_def)

lemma insert_image_inside:
  assumes "p < length c"
  shows "insert_image (c, p) img =
     (if take p c = [] \<or> endsWith (take p c) newline
      then (take p c @ markdown img @ newline @ drop p c, p + (length (markdown img) + 1))
      else (take p c @ newline @ markdown img @ newline @ drop p c,
            p + 1 + (length (markdown img) + 1)))"
  using assms endsWith_two_newlines [of "take p c"]
  by (auto simp add: insert_image_def Let_def)

lemma appended_at_line_start:
  assumes "length c \<le> p" and "c = [] \<or> endsWith c newline"
  shows "foldl insert_image (c, p) imgs = (c @ references imgs, p + length (references imgs))"
  using assms
proof (induction imgs arbitrary: c p)
  case Nil
  then show ?case by (simp add: references_def)
next
  case (Cons img imgs)
  have s: "insert_image (c, p) img = (c @ markdown img @ newline, p + (length (markdown img) + 1))"
    using Cons.prems by (auto simp add: insert_image_at_end)
  have e: "endsWith (c @ markdown img @ newline) newline"
    using endsWith_append [of "c @ markdown img" newline] by simp
  have "foldl insert_image (c @ markdown img @ newline, p + (length (markdown img) + 1)) imgs =
      ((c @ markdown img @ newline) @ references imgs,
       (p + (length (markdown img) + 1)) + length (references imgs))"
    using Cons.prems(1) e by (intro Cons.IH) simp_all
  then show ?case using s by (simp add: references_def)
qed

lemma inserted_at_line_start:
  assumes "a \<noteq> []" and "b = [] \<or> endsWith b newline"
  shows "foldl insert_image (b @ a, length b) imgs =
     (b @ references imgs @ a, length b + length (references imgs))"
  using assms
proof (induction imgs arbitrary: b)
  case Nil
  then show ?case by (simp add: references_def)
next
  case (Cons img imgs)
  have lt: "length b < length (b @ a)" using Cons.prems(1) by simp
  have s: "insert_image (b @ a, length b) img =
      ((b @ markdown img @ newline) @ a, length (b @ markdown img @ newline))"
    using Cons.prems(2) by (auto simp add: insert_image_inside [OF lt])
  have e: "endsWith (b @ markdown img @ newline) newline"
    using endsWith_append [of "b @ markdown img" newline] by simp
  have "foldl insert_image ((b @ markdown img @ newline) @ a, length (b @ markdown img @ newline)) imgs =
      ((b @ markdown img @ newline) @ references imgs @ a,
       length (b @ markdown img @ newline) + length (references imgs))"
    using Cons.prems(1) e by (intro Cons.IH) simp_all
  then show ?case using s by (simp add: references_def)
qed

text \<open>
  Claim C3: a batch inserted at a position at or beyond the end of the buffer. The buffer
  first gets a line break when it is not empty and does not end with one; then every
  reference follows, each with its line break, in batch order. The instance is the buffer
  \<^verbatim>\<open>X\<close> with the records of \<^verbatim>\<open>a.png\<close> and \<^verbatim>\<open>b.png\<close>.
\<close>

theorem insertImages_at_end:
  assumes "validImages \<noteq> []" and "length c \<le> insertPosition"
  shows "fst (insertImages c insertPosition validImages) =
     c @ (if c \<noteq> [] \<and> \<not> endsWith c newline then newline else []) @
     concat (map (\<lambda>img. markdown img @ newline) validImages)"
proof -
  obtain img rest where v: "validImages = img # rest"
    using assms(1) by (cases validImages) auto
  show ?thesis
  proof (cases "c \<noteq> [] \<and> \<not> endsWith c newline")
    case True
    have s: "insert_image (c, insertPosition) img =
        ((c @ newline @ markdown img) @ newline, length ((c @ newline @ markdown img) @ newline))"
      using True assms(2) by (simp add: insert_image_at_end)
    have "foldl insert_image ((c @ newline @ markdown img) @ newline,
        length ((c @ newline @ markdown img) @ newline)) rest =
        (((c @ newline @ markdown img) @ newline) @ references rest,
         length ((c @ newline @ markdown img) @ newline) + length (references rest))"
      by (intro appended_at_line_start) (simp_all only: endsWith_append order_refl simp_thms)
    then show ?thesis using True s v by (simp add: insertImages_def references_def)
  next
    case False
    then have "c = [] \<or> endsWith c newline" by auto
    from appended_at_line_start [OF assms(2) this, of validImages]
    show ?thesis using False by (auto simp add: insertImages_def references_def)
  qed
qed

theorem insertImages_at_end_witness:
  "fst (insertImages ''X'' 1 [image_a, image_b]) =
     ''X'' @ newline @ ''![[a.png]]'' @ newline @ ''![[b.png]]'' @ newline"
  using insertImages_at_end [of "[image_a, image_b]" "''X''" 1]
  by (simp add: image_a_def image_b_def endsWith_def)

text \<open>
  Claim C4: a batch inserted at a position strictly inside the buffer. The buffer is split
  at the position; the text before it is followed by a line break unless it is empty or
  ends with one, then by every reference with its line break, then by the text after it.
  So a reference always starts a line. The instance is the buffer \<^verbatim>\<open>hello\<close> with the
  record of \<^verbatim>\<open>a.png\<close> at position 0: the first line is the reference, the second is
  \<^verbatim>\<open>hello\<close>.
\<close>

theorem insertImages_inside:
  assumes "validImages \<noteq> []" and "insertPosition < length c"
  shows "fst (insertImages c insertPosition validImages) =
     take insertPosition c @
     (if take insertPosition c = [] \<or> endsWith (take insertPosition c) newline
      then [] else newline) @
     concat (map (\<lambda>img. markdown img @ newline) validImages) @
     drop insertPosition c"
proof -
  obtain img rest where v: "validImages = img # rest"
    using assms(1) by (cases validImages) auto
  let ?b = "take insertPosition c" and ?a = "drop insertPosition c"
  have a: "?a \<noteq> []" using assms(2) by simp
  have lb: "length ?b = insertPosition" using assms(2) by simp
  show ?thesis
  proof (cases "?b = [] \<or> endsWith ?b newline")
    case True
    from inserted_at_line_start [OF a True, of validImages]
    show ?thesis using True lb by (simp add: insertImages_def references_def)
  next
    case False
    have s: "insert_image (c, insertPosition) img =
        (((?b @ newline @ markdown img) @ newline) @ ?a,
         length ((?b @ newline @ markdown img) @ newline))"
      using False lb by (simp add: insert_image_inside [OF assms(2)])
    have "foldl insert_image (((?b @ newline @ markdown img) @ newline) @ ?a,
         length ((?b @ newline @ markdown img) @ newline)) rest =
        (((?b @ newline @ markdown img) @ newline) @ references rest @ ?a,
         length ((?b @ newline @ markdown img) @ newline) + length (references rest))"
      using a by (intro inserted_at_line_start) (simp_all only: endsWith_append simp_thms)
    then show ?thesis using False s v by (simp add: insertImages_def references_def)
  qed
qed


theorem insertImages_inside_witness:
  "fst (insertImages ''hello'' 0 [image_a]) = ''![[a.png]]'' @ newline @ ''hello'' \<and>
   split_on (CHR 0x0A) (fst (insertImages ''hello'' 0 [image_a])) = [''![[a.png]]'', ''hello''] \<and>
   fst (insertImages ''hello'' 2 [image_a]) = ''he'' @ newline @ ''![[a.png]]'' @ newline @ ''llo''"
  using insertImages_inside [of "[image_a]" 0 "''hello''"]
    insertImages_inside [of "[image_a]" 2 "''hello''"]
  by (simp add: image_a_def endsWith_def)


subsection \<open>The host's drop\<close>

lemma showStatus_success [simp]: "showStatus st m ''success'' = st"
  by (simp add: showStatus_def)

lemma foldl_append_reference:
  "foldl (\<lambda>s img. s\<lparr>content := content s @ markdown img @ newline\<rparr>) st imgs =
     st\<lparr>content := content st @ references imgs\<rparr>"
  by (induction imgs arbitrary: st) (simp_all add: references_def)

lemma handleTauriFileDrop_finish_eq:
  "handleTauriFileDrop_finish st validImages =
     (if validImages = [] then st
      else st\<lparr>uploadedImages := uploadedImages st @ validImages,
              content := content st @
                (if content st \<noteq> [] \<and> \<not> endsWith (content st) newline then newline else []) @
                references validImages\<rparr>)"
  by (simp add: handleTauriFileDrop_finish_def Let_def foldl_append_reference)

lemma insertImages_end_of_buffer:
  assumes "validImages \<noteq> []"
  shows "fst (insertImages c (length c) validImages) =
     c @ (if c \<noteq> [] \<and> \<not> endsWith c newline then newline else []) @ references validImages"
proof -
  obtain img rest where v: "validImages = img # rest"
    using assms by (cases validImages) auto
  show ?thesis
  proof (cases "c \<noteq> [] \<and> \<not> endsWith c newline")
    case True
    have s: "insert_image (c, length c) img =
        ((c @ newline @ markdown img) @ newline, length ((c @ newline @ markdown img) @ newline))"
      using True by (simp add: insert_image_at_end)
    have "foldl insert_image ((c @ newline @ markdown img) @ newline,
        length ((c @ newline @ markdown img) @ newline)) rest =
        (((c @ newline @ markdown img) @ newline) @ references rest,
         length ((c @ newline @ markdown img) @ newline) + length (references rest))"
      by (intro appended_at_line_start) (simp_all only: endsWith_append order_refl simp_thms)
    then show ?thesis using True s v by (simp add: insertImages_def references_def)
  next
    case False
    then have "c = [] \<or> endsWith c newline" by auto
    from appended_at_line_start [OF order_refl this, of validImages]
    show ?thesis using False by (auto simp add: insertImages_def)
  qed
qed

text \<open>
  Claim C9: a drop delivered by the host appends at the end of the buffer. The resolved
  references follow the buffer text, after a line break when the text is not empty and
  does not end with one, each with its own line break and in batch order; the records
  join the list. The handler takes no position and no coordinates: the text is the one an
  insertion at the end of the buffer gives.
\<close>

theorem handleTauriFileDrop_appends_at_end:
  "content (handleTauriFileDrop_finish st validImages) =
     (if validImages = [] then content st
      else content st @
        (if content st \<noteq> [] \<and> \<not> endsWith (content st) newline then newline else []) @
        concat (map (\<lambda>img. markdown img @ newline) validImages)) \<and>
   uploadedImages (handleTauriFileDrop_finish st validImages) = uploadedImages st @ validImages \<and>
   content (handleTauriFileDrop_finish st validImages) =
     (if validImages = [] then content st
      else fst (insertImages (content st) (length (content st)) validImages)) \<and>
   content (handleTauriFileDrop h st paths) =
     content (handleTauriFileDrop_finish st (valid_images (tauri_results h paths)))"
proof -
  have 1: "content (handleTauriFileDrop_finish st validImages) =
     (if validImages = [] then content st
      else content st @
        (if content st \<noteq> [] \<and> \<not> endsWith (content st) newline then newline else []) @
        references validImages)"
    by (simp add: handleTauriFileDrop_finish_eq)
  have 2: "uploadedImages (handleTauriFileDrop_finish st validImages) = uploadedImages st @ validImages"
    by (simp add: handleTauriFileDrop_finish_eq)
  have 3: "content (handleTauriFileDrop_finish st validImages) =
     (if validImages = [] then content st
      else fst (insertImages (content st) (length (content st)) validImages))"
    using 1 by (simp add: insertImages_end_of_buffer)
  have b: "content (handleTauriFileDrop_begin st paths) = content st"
    by (simp add: handleTauriFileDrop_begin_def Let_def showStatus_def)
  have e: "paths = [] \<or> filter supported paths = [] \<Longrightarrow> valid_images (tauri_results h paths) = []"
    by (auto simp add: tauri_results_def valid_images_def List.map_filter_simps)
  have 4: "content (handleTauriFileDrop h st paths) =
     content (handleTauriFileDrop_finish st (valid_images (tauri_results h paths)))"
  proof (cases "paths = [] \<or> filter supported paths = []")
    case True
    then show ?thesis using e b by (simp add: handleTauriFileDrop_def Let_def handleTauriFileDrop_finish_eq)
  next
    case False
    then have "handleTauriFileDrop_begin st paths = st\<lparr>isDragging := False, dragCounter := 0\<rparr>"
      by (simp add: handleTauriFileDrop_begin_def Let_def)
    then show ?thesis using False
      by (simp add: handleTauriFileDrop_def Let_def handleTauriFileDrop_finish_eq)
  qed
  show ?thesis using 1 2 3 4 by (simp add: references_def)
qed

theorem handleTauriFileDrop_appends_at_end_witness:
  "content (handleTauriFileDrop_finish (init_state\<lparr>content := ''X''\<rparr>) [image_a, image_b]) =
     ''X'' @ newline @ ''![[a.png]]'' @ newline @ ''![[b.png]]'' @ newline"
  using handleTauriFileDrop_appends_at_end [of "init_state\<lparr>content := ''X''\<rparr>" "[image_a, image_b]"]
  by (simp add: image_a_def image_b_def endsWith_def)


subsection \<open>A reset while a batch is resolving\<close>

lemma handleDrop_finish_on_empty:
  assumes "content st = []" and "uploadedImages st = []"
  shows "content (handleDrop_finish st ta e imgs) = references imgs \<and>
         uploadedImages (handleDrop_finish st ta e imgs) = imgs"
proof (cases "imgs = []")
  case True
  then show ?thesis using assms by (simp add: handleDrop_finish_def references_def)
next
  case False
  have "foldl insert_image ([], insert_position [] ta e) imgs =
      ([] @ references imgs, insert_position [] ta e + length (references imgs))"
    by (intro appended_at_line_start) simp_all
  then show ?thesis using False assms
    by (simp add: handleDrop_finish_def Let_def insertImages_def)
qed

text \<open>
  Claim C2 says that the results of a batch that was resolving when the reset came are
  dropped. The source keeps no mark of the reset: the drop resumes on the emptied state
  and inserts. Here the drop of \<^verbatim>\<open>a.png\<close> is dispatched on the buffer \<^verbatim>\<open>X\<close>, the
  reset follows, and the batch resolves after it.
\<close>

theorem stale_results_inserted_after_reset:
  "content (run (init_state\<lparr>content := ''X''\<rparr>)
      [Drop drag_inside, ShowCapture,
       DropResolved None drag_inside
         (valid_images (drop_results example_host False (items example_transfer)
            (files example_transfer)))]) = ''![[a.png]]'' @ newline \<and>
   map filename (uploadedImages (run (init_state\<lparr>content := ''X''\<rparr>)
      [Drop drag_inside, ShowCapture,
       DropResolved None drag_inside
         (valid_images (drop_results example_host False (items example_transfer)
            (files example_transfer)))])) = [''a.png'']"
  by (simp add: run_def init_state_def drag_inside_def example_transfer_def example_host_def
      handleDrop_begin_def show_capture_def revoke_previews_def handleDrop_finish_def
      insert_position_def insertImages_def insert_image_def valid_images_def drop_results_def
      process_file_def supported_def extension_def supported_extensions_def toLowerCase_def
      toLowerCase_char_def capital_letters_def small_letters_def resolve_filePath_def or_else_def normalizeImageResult_def
      List.map_filter_simps Let_def enumerate_eq_zip)

text \<open>
  Claim C2, as the code has it: when a reset comes between the dispatch of a drop and the
  resumption of its handler, the resolved images are applied to the emptied state. The
  buffer text becomes their references, each with its line break and in batch order, and
  the record list becomes the batch.
\<close>

theorem results_after_reset_are_applied:
  "content (run st [Drop e, ShowCapture, DropResolved textareaRef e validImages]) =
     concat (map (\<lambda>img. markdown img @ newline) validImages) \<and>
   uploadedImages (run st [Drop e, ShowCapture, DropResolved textareaRef e validImages]) =
     validImages"
proof -
  let ?s = "show_capture (handleDrop_begin st e)"
  have "content ?s = []" and "uploadedImages ?s = []"
    by (simp_all add: show_capture_def)
  from handleDrop_finish_on_empty [OF this, of textareaRef e validImages]
  show ?thesis by (simp add: run_def references_def)
qed


subsection \<open>The records of a batch\<close>

lemma valid_images_Nil [simp]: "valid_images [] = []"
  by (simp add: valid_images_def List.map_filter_simps)

lemma valid_images_Cons [simp]:
  "valid_images (r # rs) = (case r of Inl err \<Rightarrow> valid_images rs | Inr img \<Rightarrow> img # valid_images rs)"
  by (simp add: valid_images_def List.map_filter_simps split: sum.splits)

lemma valid_images_ordered: "valid_images rs = map projr (filter (\<lambda>r. \<not> isl r) rs)"
  by (induction rs) (simp_all split: sum.splits)

lemma counts_add_up:
  "length (valid_images rs) + unsupported_count rs + failure_count rs = length rs"
  by (induction rs) (auto simp add: unsupported_count_def failure_count_def split: sum.splits)

lemma length_drop_results [simp]: "length (drop_results h tauri its fs) = length fs"
  by (simp add: drop_results_def)

lemma nth_drop_results:
  "i < length fs \<Longrightarrow> drop_results h tauri its fs ! i = process_file h tauri its i (fs ! i)"
  by (simp add: drop_results_def nth_enumerate_eq)

lemma process_file_unsupported:
  "(process_file h tauri its i f = Inl UnsupportedType) = (\<not> supported (file_name f))"
  by (auto simp add: process_file_def Let_def split: sum.splits)

lemma process_file_filename:
  "process_file h tauri its i f = Inr img \<Longrightarrow> filename img = file_name f"
  by (auto simp add: process_file_def Let_def split: sum.splits if_splits)

lemma process_path_not_unsupported: "process_path h i p \<noteq> Inl UnsupportedType"
  by (auto simp add: process_path_def Let_def split: sum.splits option.splits)

lemma names_in_order:
  "map filename (valid_images (map (\<lambda>(i, f). process_file h tauri its i f) ps)) =
   map (\<lambda>(i, f). file_name f) (filter (\<lambda>(i, f). \<not> isl (process_file h tauri its i f)) ps)"
proof (induction ps)
  case Nil
  then show ?case by simp
next
  case (Cons p ps)
  obtain i f where p: "p = (i, f)" by (cases p)
  show ?case
  proof (cases "process_file h tauri its i f")
    case (Inl err)
    then show ?thesis using Cons.IH p by simp
  next
    case (Inr img)
    then show ?thesis using Cons.IH p process_file_filename [OF Inr] by simp
  qed
qed

lemma tauri_counts:
  "length (valid_images (tauri_results h paths)) + length (filter (\<lambda>p. \<not> supported p) paths) +
     failure_count (tauri_results h paths) = length paths"
proof -
  have "unsupported_count (tauri_results h paths) = 0"
    by (auto simp add: unsupported_count_def tauri_results_def filter_empty_conv
        process_path_not_unsupported)
  moreover have "length (tauri_results h paths) = length (filter supported paths)"
    by (simp add: tauri_results_def Let_def)
  moreover have "length (filter supported paths) + length (filter (\<lambda>p. \<not> supported p) paths) = length paths"
    using sum_length_filter_compl [of supported paths] by simp
  ultimately show ?thesis using counts_add_up [of "tauri_results h paths"] by simp
qed

lemma uploadedImages_showStatus [simp]:
  "uploadedImages (showStatus st m t) = uploadedImages st"
  by (simp add: showStatus_def)

lemma uploadedImages_handleDrop:
  "dataTransfer e = Some dt \<Longrightarrow>
   uploadedImages (handleDrop h ta st e) =
     uploadedImages st @ valid_images (drop_results h (isTauri st) (items dt) (files dt))"
  by (auto simp add: handleDrop_def handleDrop_begin_def handleDrop_finish_def Let_def
      drop_results_def showStatus_def)

lemma uploadedImages_handleTauriFileDrop:
  "uploadedImages (handleTauriFileDrop h st paths) =
     uploadedImages st @ valid_images (tauri_results h paths)"
  by (auto simp add: handleTauriFileDrop_def handleTauriFileDrop_begin_def
      handleTauriFileDrop_finish_eq Let_def tauri_results_def showStatus_def)

text \<open>
  The messages of the example batch: the refused entry and the one without a path report
  at the dispatch, the failed persistence when it settles; the last message stays.
\<close>

lemma drop_toasts_example:
  "drop_toasts example_host False [] example_files =
     [''Nicht unterst'' @ [CHR 0xFC] @ ''tzt: notes.txt'', ''Please use in Tauri app'',
      ''Error: no such file'']"
  by (simp add: example_host_def example_files_def drop_toasts_def file_status_def
      supported_def extension_def supported_extensions_def toLowerCase_def
      toLowerCase_char_def capital_letters_def small_letters_def resolve_filePath_def
      or_else_def Let_def enumerate_eq_zip upt_rec List.map_filter_simps)

lemma file_status_None:
  "(file_status h tauri its i f = None) = (\<not> isl (process_file h tauri its i f))"
  by (auto simp add: file_status_def process_file_def Let_def split: sum.splits)

lemma path_status_None:
  "(path_status h i p = None) = (\<not> isl (process_path h i p))"
  by (auto simp add: path_status_def process_path_def Let_def split: sum.splits option.splits)

lemma drop_results_example: "drop_results example_host False [] example_files =
   [Inr \<lparr>image_id = 1000, filename = ''a.png'', markdown = ''![[a.png]]'',
         preview = ''blob:a.png'', image_file = Some (example_files ! 0)\<rparr>,
    Inl UnsupportedType, Inl PersistenceFailure, Inl NoRuntime]"
  by (simp add: example_host_def example_files_def drop_results_def
      process_file_def supported_def extension_def supported_extensions_def toLowerCase_def
      toLowerCase_char_def capital_letters_def small_letters_def resolve_filePath_def or_else_def normalizeImageResult_def
      Let_def enumerate_eq_zip upt_rec)


lemma tauri_results_example: "tauri_results example_host [''/tmp/a.png'', ''/tmp/readme.md'', ''/tmp/zzz.png''] =
   [Inr \<lparr>image_id = 1000, filename = ''a.png'', markdown = ''![[a.png]]'',
         preview = ''asset://localhost//tmp/a.png'', image_file = None\<rparr>,
    Inl PersistenceFailure]"
  by (simp add: example_host_def tauri_results_def process_path_def
      supported_def extension_def supported_extensions_def toLowerCase_def
      toLowerCase_char_def capital_letters_def small_letters_def or_else_def normalizeImageResult_def normalizeFilePath_def
      startsWith_def Let_def enumerate_eq_zip upt_rec)

text \<open>
  Claim C5: the records of a drop batch. An entry is refused for its type exactly when the
  lower-cased text after the last dot of its name is none of png, jpg, jpeg, webp, gif.
  Every entry has its own outcome, the one its own processing gives, whatever happens to
  the others. The records are the outcomes that are no failure, in batch order (for a
  browser drop their file names are the names of the entries that succeeded, in order),
  and they are what the handler appends to the record list. Their number is the number of
  entries less the refused ones less the failed ones. All of this holds for the browser's
  drop and for the host's.
\<close>

theorem drop_batch_records:
  "supported n = (extension n \<in> set supported_extensions) \<and>
   (process_file h tauri its i f = Inl UnsupportedType) = (\<not> supported (file_name f)) \<and>
   length (drop_results h tauri its fs) = length fs \<and>
   (i < length fs \<longrightarrow> drop_results h tauri its fs ! i = process_file h tauri its i (fs ! i)) \<and>
   valid_images (drop_results h tauri its fs) =
     map projr (filter (\<lambda>r. \<not> isl r) (drop_results h tauri its fs)) \<and>
   map filename (valid_images (drop_results h tauri its fs)) =
     map (\<lambda>(i, f). file_name f)
       (filter (\<lambda>(i, f). \<not> isl (process_file h tauri its i f)) (enumerate 0 fs)) \<and>
   int (length (valid_images (drop_results h tauri its fs))) =
     int (length fs) - int (unsupported_count (drop_results h tauri its fs))
       - int (failure_count (drop_results h tauri its fs)) \<and>
   (dataTransfer e = Some dt \<longrightarrow>
      uploadedImages (handleDrop h ta st e) =
        uploadedImages st @ valid_images (drop_results h (isTauri st) (items dt) (files dt))) \<and>
   length (tauri_results h paths) = length (filter supported paths) \<and>
   (j < length (filter supported paths) \<longrightarrow>
      tauri_results h paths ! j = process_path h j (filter supported paths ! j)) \<and>
   valid_images (tauri_results h paths) =
     map projr (filter (\<lambda>r. \<not> isl r) (tauri_results h paths)) \<and>
   int (length (valid_images (tauri_results h paths))) =
     int (length paths) - int (length (filter (\<lambda>p. \<not> supported p) paths))
       - int (failure_count (tauri_results h paths)) \<and>
   uploadedImages (handleTauriFileDrop h st paths) =
     uploadedImages st @ valid_images (tauri_results h paths)"
proof -
  have c1: "int (length (valid_images (drop_results h tauri its fs))) =
     int (length fs) - int (unsupported_count (drop_results h tauri its fs))
       - int (failure_count (drop_results h tauri its fs))"
    using counts_add_up [of "drop_results h tauri its fs"] by simp
  have c2: "int (length (valid_images (tauri_results h paths))) =
     int (length paths) - int (length (filter (\<lambda>p. \<not> supported p) paths))
       - int (failure_count (tauri_results h paths))"
    using tauri_counts [of h paths] by simp
  have n: "map filename (valid_images (drop_results h tauri its fs)) =
     map (\<lambda>(i, f). file_name f)
       (filter (\<lambda>(i, f). \<not> isl (process_file h tauri its i f)) (enumerate 0 fs))"
    unfolding drop_results_def by (rule names_in_order)
  have t: "length (tauri_results h paths) = length (filter supported paths) \<and>
     (j < length (filter supported paths) \<longrightarrow>
        tauri_results h paths ! j = process_path h j (filter supported paths ! j))"
    by (simp add: tauri_results_def nth_enumerate_eq)
  show ?thesis
    using c1 c2 n t
    by (simp add: supported_def process_file_unsupported nth_drop_results
        valid_images_ordered [symmetric] uploadedImages_handleDrop
        uploadedImages_handleTauriFileDrop)
qed

theorem drop_batch_records_witness:
  "length (valid_images (drop_results example_host False [] example_files)) = 1 \<and>
   unsupported_count (drop_results example_host False [] example_files) = 1 \<and>
   failure_count (drop_results example_host False [] example_files) = 2 \<and>
   process_file example_host False [] 3 (example_files ! 3) = Inl NoRuntime \<and>
   map filename (valid_images (drop_results example_host False [] example_files)) = [''a.png''] \<and>
   map filename (uploadedImages (handleDrop example_host None init_state drag_inside)) = [''a.png''] \<and>
   length (valid_images (tauri_results example_host
      [''/tmp/a.png'', ''/tmp/readme.md'', ''/tmp/zzz.png''])) = 1 \<and>
   process_path example_host 1 ''/tmp/zzz.png'' = Inl PersistenceFailure"
proof -
  have d: "valid_images (drop_results example_host False (items example_transfer)
      (files example_transfer)) =
      [\<lparr>image_id = 1000, filename = ''a.png'', markdown = ''![[a.png]]'',
         preview = ''blob:a.png'',
         image_file = Some \<lparr>file_name = ''a.png'', file_path = ''/tmp/a.png'',
           webkitRelativePath = []\<rparr>\<rparr>]"
    by (simp add: example_host_def example_transfer_def drop_results_def
      process_file_def supported_def extension_def supported_extensions_def toLowerCase_def
      toLowerCase_char_def capital_letters_def small_letters_def resolve_filePath_def or_else_def normalizeImageResult_def
      Let_def enumerate_eq_zip upt_rec)
  have t: "dataTransfer drag_inside = Some example_transfer" "isTauri init_state = False"
    "uploadedImages init_state = []"
    by (simp_all add: drag_inside_def init_state_def)
  note inst = drop_batch_records [where h = example_host and tauri = False and its = "[]"
        and fs = example_files and i = 3 and e = drag_inside and dt = example_transfer
        and st = init_state and ta = None and j = 1
        and paths = "[''/tmp/a.png'', ''/tmp/readme.md'', ''/tmp/zzz.png'']"]
  have len: "length example_files = 4"
    by (simp add: example_files_def)
  have "drop_results example_host False [] example_files ! 3 =
      process_file example_host False [] 3 (example_files ! 3)"
    using inst len by simp
  then have a: "process_file example_host False [] 3 (example_files ! 3) = Inl NoRuntime"
    by (simp add: drop_results_example)
  have b: "length (valid_images (drop_results example_host False [] example_files)) = 1"
    "unsupported_count (drop_results example_host False [] example_files) = 1"
    "failure_count (drop_results example_host False [] example_files) = 2"
    "map filename (valid_images (drop_results example_host False [] example_files)) = [''a.png'']"
    by (simp_all add: drop_results_example unsupported_count_def failure_count_def)
  have "uploadedImages (handleDrop example_host None init_state drag_inside) =
      uploadedImages init_state @
      valid_images (drop_results example_host (isTauri init_state) (items example_transfer)
        (files example_transfer))"
    using inst t(1) by simp
  then have c: "map filename (uploadedImages (handleDrop example_host None init_state drag_inside)) =
      [''a.png'']"
    using d t by simp
  have e: "length (valid_images (tauri_results example_host
      [''/tmp/a.png'', ''/tmp/readme.md'', ''/tmp/zzz.png''])) = 1"
    by (simp add: tauri_results_example)
  have s: "filter supported [''/tmp/a.png'', ''/tmp/readme.md'', ''/tmp/zzz.png''] =
      [''/tmp/a.png'', ''/tmp/zzz.png'']"
    by (simp add: supported_def extension_def supported_extensions_def toLowerCase_def
        toLowerCase_char_def capital_letters_def small_letters_def)
  have "tauri_results example_host [''/tmp/a.png'', ''/tmp/readme.md'', ''/tmp/zzz.png''] ! 1 =
      process_path example_host 1 ''/tmp/zzz.png''"
    using inst s by simp
  then have f: "process_path example_host 1 ''/tmp/zzz.png'' = Inl PersistenceFailure"
    by (simp add: tauri_results_example)
  show ?thesis using a b c e f by simp
qed

end
